theory Spec2Isabelle
  imports Main "HOL-Library.Sublist"
begin

section \<open>Python strings\<close>

text \<open>
  A Python \<^verbatim>\<open>str\<close> is a sequence of Unicode code points; it is modelled as a list of
  natural numbers (the code points), so that slicing and \<^verbatim>\<open>len\<close> count what Python
  counts. \<open>cps\<close> turns an ASCII literal into such a string.
\<close>

type_synonym pystr = "nat list"

definition cps :: "string \<Rightarrow> pystr" where
  "cps s = map of_char s"

text \<open>
  \<^verbatim>\<open>str.isspace\<close> on one character, which is also what \<^verbatim>\<open>\s\<close> matches in a
  \<^verbatim>\<open>str\<close> pattern and what \<^verbatim>\<open>str.strip()\<close> removes (CPython uses the same
  character table for the three).
\<close>

definition isspace :: "nat \<Rightarrow> bool" where
  "isspace c = ((9 \<le> c \<and> c \<le> 13) \<or> (28 \<le> c \<and> c \<le> 32) \<or> c = 133 \<or> c = 160
     \<or> c = 5760 \<or> (8192 \<le> c \<and> c \<le> 8202) \<or> c = 8232 \<or> c = 8233 \<or> c = 8239
     \<or> c = 8287 \<or> c = 12288)"

text \<open>\<^verbatim>\<open>s.strip()\<close>\<close>

definition strip :: "pystr \<Rightarrow> pystr" where
  "strip s = rev (dropWhile isspace (rev (dropWhile isspace s)))"

text \<open>\<^verbatim>\<open>s.startswith(p)\<close> and \<^verbatim>\<open>needle in hay\<close> (substring test)\<close>

fun startswith :: "pystr \<Rightarrow> pystr \<Rightarrow> bool" where
  "startswith s [] = True"
| "startswith [] (p # ps) = False"
| "startswith (c # cs) (p # ps) = (c = p \<and> startswith cs ps)"

fun py_in :: "pystr \<Rightarrow> pystr \<Rightarrow> bool" where
  "py_in needle [] = (needle = [])"
| "py_in needle (c # cs) = (startswith (c # cs) needle \<or> py_in needle cs)"

text \<open>\<^verbatim>\<open>s.endswith(p)\<close>\<close>

definition endswith :: "pystr \<Rightarrow> pystr \<Rightarrow> bool" where
  "endswith s p = startswith (rev s) (rev p)"

text \<open>\<^verbatim>\<open>text[a:b]\<close> for \<open>0 \<le> a\<close> and \<open>0 \<le> b\<close> (an empty slice when \<open>b \<le> a\<close>)\<close>

definition slice :: "pystr \<Rightarrow> nat \<Rightarrow> nat \<Rightarrow> pystr" where
  "slice s a b = take (b - a) (drop a s)"

text \<open>
  The Unicode tables Python consults and that are not written out here are parameters of
  the model: \<^verbatim>\<open>str.lower\<close>, \<^verbatim>\<open>str.isalnum\<close> (for \<^verbatim>\<open>\w\<close> and \<^verbatim>\<open>\b\<close>), the
  decimal digits (for \<^verbatim>\<open>\d\<close>) and the case-insensitive comparison of a pattern's
  literal with a character of the text (\<^verbatim>\<open>re.IGNORECASE\<close>).
\<close>

record unicode =
  lower :: "pystr \<Rightarrow> pystr"
  isalnum :: "nat \<Rightarrow> bool"
  isdecimal :: "nat \<Rightarrow> bool"
  ci_eq :: "nat \<Rightarrow> nat \<Rightarrow> bool"

text \<open>The tables on ASCII text: code points above 127 are taken as uncased non-letters.\<close>

definition ascii_lower :: "nat \<Rightarrow> nat" where
  "ascii_lower c = (if 65 \<le> c \<and> c \<le> 90 then c + 32 else c)"

definition ascii :: unicode where
  "ascii = \<lparr> lower = map ascii_lower,
             isalnum = (\<lambda>c. (48 \<le> c \<and> c \<le> 57) \<or> (65 \<le> c \<and> c \<le> 90) \<or> (97 \<le> c \<and> c \<le> 122)),
             isdecimal = (\<lambda>c. 48 \<le> c \<and> c \<le> 57),
             ci_eq = (\<lambda>p c. ascii_lower p = ascii_lower c) \<rparr>"

section \<open>Exceptions\<close>

text \<open>
  The exceptions the modelled code can meet; all are subclasses of Python's
  \<^verbatim>\<open>Exception\<close>. A computation that may raise returns \<open>py_exception + 'a\<close>.
\<close>

datatype py_exception = IndexError | KeyError | TypeError | CapabilityError pystr

definition try_except ::
  "py_exception + 'a \<Rightarrow> (py_exception \<Rightarrow> py_exception + 'a) \<Rightarrow> py_exception + 'a" where
  "try_except body handler = (case body of Inl e \<Rightarrow> handler e | Inr v \<Rightarrow> Inr v)"

definition bind_exn ::
  "py_exception + 'a \<Rightarrow> ('a \<Rightarrow> py_exception + 'b) \<Rightarrow> py_exception + 'b" where
  "bind_exn m f = (case m of Inl e \<Rightarrow> Inl e | Inr v \<Rightarrow> f v)"

text \<open>\<^verbatim>\<open>xs[0]\<close> and \<^verbatim>\<open>d[k]\<close> on a dict given as an association list\<close>

definition first_item :: "'a list \<Rightarrow> py_exception + 'a" where
  "first_item xs = (case xs of [] \<Rightarrow> Inl IndexError | x # _ \<Rightarrow> Inr x)"

definition getitem :: "(pystr \<times> 'v) list \<Rightarrow> pystr \<Rightarrow> py_exception + 'v" where
  "getitem d k = (case map_of d k of None \<Rightarrow> Inl KeyError | Some v \<Rightarrow> Inr v)"

section \<open>The external capabilities\<close>

text \<open>
  The summarization pipeline is a black box: called on a text (with
  \<^verbatim>\<open>max_length=150, min_length=50, do_sample=False\<close>) it raises or returns a list of
  dicts. With \<^verbatim>\<open>do_sample=False\<close> it is a function of the text.
\<close>

type_synonym summarizer = "pystr \<Rightarrow> py_exception + (pystr \<times> pystr) list list"

text \<open>
  What spaCy's \<^verbatim>\<open>nlp_spacy(text)\<close> gives: the entities of the document and its
  sentences, each sentence with the entities inside it.
\<close>

record entity =
  ent_text :: pystr
  label :: pystr
  start_char :: nat
  end_char :: nat

record sentence =
  sent_text :: pystr
  sent_ents :: "entity list"

record doc =
  ents :: "entity list"
  sents :: "sentence list"

type_synonym nlp = "pystr \<Rightarrow> doc"

section \<open>get_summary\<close>

text \<open>
  \<open>get_summary\<close> returns its result together with the list of texts the summarizer was
  invoked on, so that "without invoking the capability" can be stated.
\<close>

definition get_summary :: "summarizer \<Rightarrow> pystr \<Rightarrow> (py_exception + pystr) \<times> pystr list" where
  "get_summary summarizer text =
     (if strip text = [] then (Inr (cps ''No content to summarize.''), [])
      else
        (try_except
           (bind_exn (summarizer text) (\<lambda>summary_output.
            bind_exn (first_item summary_output) (\<lambda>d.
            getitem d (cps ''summary_text''))))
           (\<lambda>e. Inr (cps ''Could not generate summary.'')),
         [text]))"

section \<open>extract_key_points_and_actions\<close>

definition action_indicators :: "pystr list" where
  "action_indicators = map cps
     [''please'', ''kindly'', ''ensure'', ''confirm'', ''submit'', ''reply by'',
      ''action required'', ''must'', ''should'', ''need to'', ''important:'', ''note:'',
      ''deadline'', ''review'', ''attend'', ''find attached'', ''see attached'']"

definition significant_labels :: "pystr list" where
  "significant_labels = map cps [''PERSON'', ''ORG'', ''GPE'', ''PRODUCT'', ''EVENT'', ''MONEY'']"

text \<open>The value of \<^verbatim>\<open>is_key\<close> at the end of one pass of the loop body.\<close>

definition is_key :: "unicode \<Rightarrow> sentence \<Rightarrow> bool" where
  "is_key U sent =
     (let text = strip (sent_text sent) in
      list_ex (\<lambda>indicator. py_in indicator (lower U text)) action_indicators
      \<or> list_ex (\<lambda>ent. label ent \<in> set significant_labels) (sent_ents sent)
      \<or> endswith text (cps ''?''))"

text \<open>
  The loop over \<^verbatim>\<open>doc.sents\<close>, with the list \<^verbatim>\<open>key_points\<close> and the set
  \<^verbatim>\<open>processed_sentences\<close> as its state.
\<close>

fun key_points_loop :: "unicode \<Rightarrow> sentence list \<Rightarrow> pystr list \<Rightarrow> pystr set \<Rightarrow> pystr list" where
  "key_points_loop U [] key_points processed_sentences = key_points"
| "key_points_loop U (sent # rest) key_points processed_sentences =
     (let text = strip (sent_text sent) in
      if text = [] \<or> text \<in> processed_sentences
      then key_points_loop U rest key_points processed_sentences
      else if is_key U sent
      then key_points_loop U rest (key_points @ [text]) (insert text processed_sentences)
      else key_points_loop U rest key_points processed_sentences)"

definition extract_key_points_and_actions :: "unicode \<Rightarrow> nlp \<Rightarrow> pystr \<Rightarrow> pystr list" where
  "extract_key_points_and_actions U nlp_spacy text =
     key_points_loop U (sents (nlp_spacy text)) [] {}"

text \<open>
  The sentences the loop selects, in document order and with repetitions: the trimmed
  text of every sentence that is not blank and for which \<open>is_key\<close> holds.
\<close>

definition selected_sentences :: "unicode \<Rightarrow> sentence list \<Rightarrow> pystr list" where
  "selected_sentences U ss =
     map (\<lambda>s. strip (sent_text s)) (filter (\<lambda>s. strip (sent_text s) \<noteq> [] \<and> is_key U s) ss)"

text \<open>Keeping the first occurrence of every element of a list.\<close>

fun first_occurrences :: "'a list \<Rightarrow> 'a list" where
  "first_occurrences [] = []"
| "first_occurrences (x # xs) = x # first_occurrences (filter (\<lambda>y. y \<noteq> x) xs)"

section \<open>Dates and the clock\<close>

text \<open>
  A \<^verbatim>\<open>datetime\<close> as Python stores it: the calendar fields and the offset from UTC
  in seconds, \<open>None\<close> for a naive datetime. The arithmetic is that of the standard
  library: the proleptic Gregorian ordinal of a date, and the difference of two datetimes
  as a normalised \<^verbatim>\<open>timedelta\<close> (\<open>0 \<le> seconds < 86400\<close>,
  \<open>0 \<le> microseconds < 1000000\<close>, the sign carried by \<open>days\<close>).
\<close>

record datetime =
  year :: nat
  month :: nat
  day :: nat
  hour :: nat
  minute :: nat
  second :: nat
  microsecond :: nat
  utcoffset :: "int option"

record timedelta =
  days :: int
  seconds :: int
  microseconds :: int

definition is_leap :: "nat \<Rightarrow> bool" where
  "is_leap y = (y mod 4 = 0 \<and> (y mod 100 \<noteq> 0 \<or> y mod 400 = 0))"

definition days_before_year :: "nat \<Rightarrow> int" where
  "days_before_year y =
     (let y1 = int y - 1 in y1 * 365 + y1 div 4 - y1 div 100 + y1 div 400)"

definition days_before_month :: "nat \<Rightarrow> nat \<Rightarrow> int" where
  "days_before_month y m =
     [0, 0, 31, 59, 90, 120, 151, 181, 212, 243, 273, 304, 334] ! (min m 12)
     + (if 2 < m \<and> is_leap y then 1 else 0)"

definition toordinal :: "datetime \<Rightarrow> int" where
  "toordinal d = days_before_year (year d) + days_before_month (year d) (month d) + int (day d)"

definition timedelta_new :: "int \<Rightarrow> int \<Rightarrow> int \<Rightarrow> timedelta" where
  "timedelta_new d s us =
     (let total = (d * 86400 + s) * 1000000 + us in
      \<lparr> days = total div 86400000000,
        seconds = (total div 1000000) mod 86400,
        microseconds = total mod 1000000 \<rparr>)"

text \<open>
  \<^verbatim>\<open>a - b\<close> on datetimes. Two naive datetimes, or two of the same offset, give the
  difference of their fields; two aware ones of different offsets are brought to UTC;
  a naive and an aware one raise \<^verbatim>\<open>TypeError\<close>.
\<close>

definition datetime_sub :: "datetime \<Rightarrow> datetime \<Rightarrow> py_exception + timedelta" where
  "datetime_sub a b =
     (let days1 = toordinal a; days2 = toordinal b;
          secs1 = int (second a) + int (minute a) * 60 + int (hour a) * 3600;
          secs2 = int (second b) + int (minute b) * 60 + int (hour b) * 3600;
          us = int (microsecond a) - int (microsecond b)
      in if utcoffset a = utcoffset b
         then Inr (timedelta_new (days1 - days2) (secs1 - secs2) us)
         else (case (utcoffset a, utcoffset b) of
                 (Some myoff, Some otoff) \<Rightarrow>
                   Inr (timedelta_new (days1 - days2) (secs1 - secs2 + otoff - myoff) us)
               | _ \<Rightarrow> Inl TypeError))"

text \<open>
  \<^verbatim>\<open>d.strftime('%Y-%m-%d %H:%M')\<close>: the year on four digits, the other fields on
  two (the fields of a valid datetime fit). Seconds, microseconds and the offset are not
  shown.
\<close>

definition digit :: "nat \<Rightarrow> nat" where
  "digit n = 48 + n mod 10"

definition pad2 :: "nat \<Rightarrow> pystr" where
  "pad2 n = [digit (n div 10), digit n]"

definition pad4 :: "nat \<Rightarrow> pystr" where
  "pad4 n = [digit (n div 1000), digit (n div 100), digit (n div 10), digit n]"

definition strftime_ymd_hm :: "datetime \<Rightarrow> pystr" where
  "strftime_ymd_hm d =
     pad4 (year d) @ cps ''-'' @ pad2 (month d) @ cps ''-'' @ pad2 (day d) @ cps '' ''
     @ pad2 (hour d) @ cps '':'' @ pad2 (minute d)"

text \<open>
  \<^verbatim>\<open>datetime.now()\<close> is an effect: the clock is the sequence of the values it
  returns during one call, and the code threads the number of readings taken so far.
  What it returns is naive. Nothing makes a later reading greater than an earlier one
  (it is the wall clock).
  \<^verbatim>\<open>dateparser.parse(s, settings={'PREFER_DATES_FROM': 'future', 'RELATIVE_BASE': base})\<close>
  is a black box from the entity's text and the base to a datetime, naive or aware, or
  \<^verbatim>\<open>None\<close>.
\<close>

type_synonym clock = "nat \<Rightarrow> datetime"

definition datetime_now :: "clock \<Rightarrow> nat \<Rightarrow> datetime" where
  "datetime_now now n = (now n)\<lparr> utcoffset := None \<rparr>"

type_synonym dateparser = "pystr \<Rightarrow> datetime \<Rightarrow> datetime option"

section \<open>extract_deadlines\<close>

definition deadline_keywords :: "pystr list" where
  "deadline_keywords = map cps
     [''deadline'', ''due'', ''by'', ''before'', ''expires'', ''register'', ''submit'',
      ''apply'', ''on or before'', ''last date'']"

definition deadline_labels :: "pystr list" where
  "deadline_labels = map cps [''DATE'', ''TIME'', ''EVENT'']"

text \<open>
  The loop over \<^verbatim>\<open>doc.ents\<close>; its state is the list \<^verbatim>\<open>deadlines\<close> and the
  number \<open>n\<close> of clock readings taken. \<^verbatim>\<open>max(0, ent.start_char - 50)\<close> is the
  truncating subtraction of naturals. The two subtractions
  \<^verbatim>\<open>parsed_date - current_time\<close> can raise, which ends the call.
\<close>

fun deadlines_loop ::
  "unicode \<Rightarrow> dateparser \<Rightarrow> clock \<Rightarrow> pystr \<Rightarrow> entity list \<Rightarrow> nat \<Rightarrow> pystr list
     \<Rightarrow> py_exception + pystr list" where
  "deadlines_loop U parse now text [] n deadlines = Inr deadlines"
| "deadlines_loop U parse now text (ent # rest) n deadlines =
     (if label ent \<in> set deadline_labels then
        (case parse (ent_text ent) (datetime_now now n) of
           None \<Rightarrow> deadlines_loop U parse now text rest (n + 1) deadlines
         | Some parsed_date \<Rightarrow>
            (let context = lower U (slice text (start_char ent - 50)
                                      (min (length text) (end_char ent + 50)));
                 current_time = datetime_now now (n + 1)
             in case datetime_sub parsed_date current_time of
                  Inl e \<Rightarrow> Inl e
                | Inr delta \<Rightarrow>
                   (let is_future_date = (days delta \<ge> 0)
                    in case datetime_sub parsed_date current_time of
                         Inl e \<Rightarrow> Inl e
                       | Inr delta' \<Rightarrow>
                          (let is_within_30_days = (days delta' \<le> 30)
                           in if list_ex (\<lambda>keyword. py_in keyword context) deadline_keywords
                                 \<and> is_future_date
                              then deadlines_loop U parse now text rest (n + 2)
                                     (deadlines @ [strftime_ymd_hm parsed_date])
                              else if label ent = cps ''DATE'' \<and> is_future_date
                                      \<and> is_within_30_days
                              then deadlines_loop U parse now text rest (n + 2)
                                     (deadlines @ [strftime_ymd_hm parsed_date])
                              else deadlines_loop U parse now text rest (n + 2) deadlines))))
      else deadlines_loop U parse now text rest n deadlines)"

text \<open>
  \<^verbatim>\<open>list(set(deadlines))\<close> keeps one copy of each string, in an order Python does not
  fix; \<open>remdups\<close> stands for it, and the properties below speak of the elements only.
\<close>

definition extract_deadlines ::
  "unicode \<Rightarrow> nlp \<Rightarrow> dateparser \<Rightarrow> clock \<Rightarrow> pystr \<Rightarrow> py_exception + pystr list" where
  "extract_deadlines U nlp_spacy parse now text =
     (case deadlines_loop U parse now text (ents (nlp_spacy text)) 0 [] of
        Inl e \<Rightarrow> Inl e
      | Inr deadlines \<Rightarrow> Inr (remdups deadlines))"

text \<open>
  The vocabulary of the properties. A datetime's fields as a count of microseconds, which
  orders naive datetimes; the entities of DATE, TIME or EVENT label whose text the parser
  resolves, each with its resolved datetime and the clock reading taken for it; the
  timestamp a returned string denotes (the date cut to the minute).
\<close>

definition microseconds_of :: "datetime \<Rightarrow> int" where
  "microseconds_of d =
     ((toordinal d * 86400 + (int (second d) + int (minute d) * 60 + int (hour d) * 3600))
        * 1000000 + int (microsecond d))"

fun resolved_entities ::
  "dateparser \<Rightarrow> clock \<Rightarrow> entity list \<Rightarrow> nat \<Rightarrow> (entity \<times> datetime \<times> datetime) list" where
  "resolved_entities parse now [] n = []"
| "resolved_entities parse now (ent # rest) n =
     (if label ent \<in> set deadline_labels then
        (case parse (ent_text ent) (datetime_now now n) of
           None \<Rightarrow> resolved_entities parse now rest (n + 1)
         | Some d \<Rightarrow>
             (ent, d, datetime_now now (n + 1)) # resolved_entities parse now rest (n + 2))
      else resolved_entities parse now rest n)"

definition naive_date :: "entity \<times> datetime \<times> datetime \<Rightarrow> bool" where
  "naive_date x = (utcoffset (fst (snd x)) = None)"

definition minute_start :: "datetime \<Rightarrow> datetime" where
  "minute_start d = d\<lparr> second := 0, microsecond := 0 \<rparr>"

definition keyword_in_window :: "unicode \<Rightarrow> pystr \<Rightarrow> entity \<Rightarrow> bool" where
  "keyword_in_window U text ent =
     list_ex (\<lambda>keyword. py_in keyword
                (lower U (slice text (start_char ent - 50) (min (length text) (end_char ent + 50)))))
       deadline_keywords"

definition in_the_past :: "datetime \<Rightarrow> datetime \<Rightarrow> bool" where
  "in_the_past d t = (microseconds_of d < microseconds_of t)"

text \<open>
  "Within 30 days of \<open>t\<close>" in the specification's words: at most 30 days after \<open>t\<close>.
  What the code tests is \<^verbatim>\<open>delta.days <= 30\<close>, which holds up to one microsecond short
  of 31 days: \<open>days_at_most_30\<close>.
\<close>

definition within_30_days :: "datetime \<Rightarrow> datetime \<Rightarrow> bool" where
  "within_30_days d t = (microseconds_of d - microseconds_of t \<le> 30 * 86400000000)"

definition days_at_most_30 :: "datetime \<Rightarrow> datetime \<Rightarrow> bool" where
  "days_at_most_30 d t = (microseconds_of d - microseconds_of t < 31 * 86400000000)"

text \<open>
  The rule as the specification states it, for one resolved entity, and the rule the code
  applies.
\<close>

definition claimed_deadline :: "unicode \<Rightarrow> pystr \<Rightarrow> entity \<times> datetime \<times> datetime \<Rightarrow> bool" where
  "claimed_deadline U text x =
     (case x of (ent, d, t) \<Rightarrow>
        (keyword_in_window U text ent \<and> \<not> in_the_past d t)
        \<or> (label ent = cps ''DATE'' \<and> \<not> in_the_past d t \<and> within_30_days d t))"

definition classified_deadline :: "unicode \<Rightarrow> pystr \<Rightarrow> entity \<times> datetime \<times> datetime \<Rightarrow> bool" where
  "classified_deadline U text x =
     (case x of (ent, d, t) \<Rightarrow>
        (keyword_in_window U text ent \<and> \<not> in_the_past d t)
        \<or> (label ent = cps ''DATE'' \<and> \<not> in_the_past d t \<and> days_at_most_30 d t))"

section \<open>Regular expressions\<close>

text \<open>
  The part of Python's \<^verbatim>\<open>re\<close> the code uses, as a backtracking matcher. A pattern is
  translated with its flags: a literal of a pattern compiled with \<^verbatim>\<open>re.IGNORECASE\<close>
  is \<open>LitI\<close>, \<^verbatim>\<open>.\<close> is \<open>AnyChar\<close> under \<^verbatim>\<open>re.DOTALL\<close> and \<open>NotNewline\<close>
  otherwise, \<^verbatim>\<open>^\<close> and \<^verbatim>\<open>$\<close> under \<^verbatim>\<open>re.MULTILINE\<close> are \<open>LineStart\<close> and
  \<open>LineEnd\<close>.
\<close>

datatype cset =
    Lit nat
  | LitI nat
  | Space
  | NotSpace
  | Word
  | Digit
  | AnyChar
  | NotNewline
  | OneOf "nat list"
  | NoneOf "nat list"

datatype regex =
    Eps
  | Chr cset
  | Seq regex regex
  | Alt regex regex
  | Rep bool nat "nat option" regex
  | Group nat regex
  | WordBoundary
  | LineStart
  | LineEnd

definition is_word :: "unicode \<Rightarrow> nat \<Rightarrow> bool" where
  "is_word U c = (isalnum U c \<or> c = 95)"

fun cmatch :: "unicode \<Rightarrow> cset \<Rightarrow> nat \<Rightarrow> bool" where
  "cmatch U (Lit p) c = (c = p)"
| "cmatch U (LitI p) c = ci_eq U p c"
| "cmatch U Space c = isspace c"
| "cmatch U NotSpace c = (\<not> isspace c)"
| "cmatch U Word c = is_word U c"
| "cmatch U Digit c = isdecimal U c"
| "cmatch U AnyChar c = True"
| "cmatch U NotNewline c = (c \<noteq> 10)"
| "cmatch U (OneOf cs) c = (c \<in> set cs)"
| "cmatch U (NoneOf cs) c = (c \<notin> set cs)"

text \<open>
  The matcher's position in the text: the character before it (if any), the text from it
  on, and the groups captured so far (the latest capture of a group first).
\<close>

record cursor =
  prev :: "nat option"
  rest :: pystr
  marks :: "(nat \<times> pystr) list"

definition advanced :: "cursor \<Rightarrow> cursor \<Rightarrow> bool" where
  "advanced c c' = (length (rest c') < length (rest c))"

definition set_mark :: "nat \<Rightarrow> cursor \<Rightarrow> cursor \<Rightarrow> cursor" where
  "set_mark n c c' =
     c'\<lparr> marks := (n, take (length (rest c) - length (rest c')) (rest c)) # marks c' \<rparr>"

definition at_boundary :: "unicode \<Rightarrow> cursor \<Rightarrow> bool" where
  "at_boundary U c =
     ((case prev c of None \<Rightarrow> False | Some p \<Rightarrow> is_word U p)
      \<noteq> (case rest c of [] \<Rightarrow> False | x # xs \<Rightarrow> is_word U x))"

definition at_line_start :: "cursor \<Rightarrow> bool" where
  "at_line_start c = (case prev c of None \<Rightarrow> True | Some p \<Rightarrow> p = 10)"

definition at_line_end :: "cursor \<Rightarrow> bool" where
  "at_line_end c = (case rest c of [] \<Rightarrow> True | x # xs \<Rightarrow> x = 10)"

fun rsize :: "regex \<Rightarrow> nat" where
  "rsize (Seq a b) = Suc (rsize a + rsize b)"
| "rsize (Alt a b) = Suc (rsize a + rsize b)"
| "rsize (Rep g m n r) = Suc (rsize r)"
| "rsize (Group n r) = Suc (rsize r)"
| "rsize r = 0"

definition dec :: "nat option \<Rightarrow> nat option" where
  "dec n = map_option (\<lambda>k. k - 1) n"

text \<open>
  \<open>matches U r c\<close> lists the positions where a match of \<open>r\<close> begun at \<open>c\<close> can end,
  in the order in which backtracking tries them; the first is the one Python takes. A
  greedy repetition tries one more round before stopping, a lazy one stops first. A round
  of a repetition must consume a character (all repeated patterns of the code do).
\<close>

function matches :: "unicode \<Rightarrow> regex \<Rightarrow> cursor \<Rightarrow> cursor list" where
  "matches U Eps c = [c]"
| "matches U (Chr cs) c =
     (case rest c of
        [] \<Rightarrow> []
      | x # xs \<Rightarrow> if cmatch U cs x then [c\<lparr> prev := Some x, rest := xs \<rparr>] else [])"
| "matches U (Seq a b) c = concat (map (matches U b) (matches U a c))"
| "matches U (Alt a b) c = matches U a c @ matches U b c"
| "matches U (Rep greedy m n r) c =
     (if greedy
      then (if n = Some 0 then []
            else concat (map (matches U (Rep greedy (m - 1) (dec n) r))
                          (filter (advanced c) (matches U r c))))
           @ (if m = 0 then [c] else [])
      else (if m = 0 then [c] else [])
           @ (if n = Some 0 then []
              else concat (map (matches U (Rep greedy (m - 1) (dec n) r))
                            (filter (advanced c) (matches U r c)))))"
| "matches U (Group n r) c = map (set_mark n c) (matches U r c)"
| "matches U WordBoundary c = (if at_boundary U c then [c] else [])"
| "matches U LineStart c = (if at_line_start c then [c] else [])"
| "matches U LineEnd c = (if at_line_end c then [c] else [])"
  by pat_completeness auto
termination
  by (relation "inv_image (less_than <*lex*> less_than)
                  (\<lambda>(U, r, c). (rsize r, length (rest c)))")
     (auto simp: advanced_def)

text \<open>A match ends at or after the position where it began.\<close>

lemmas matches_Rep = matches.simps(5)
declare matches.simps(5) [simp del]

lemma matches_suffix: "e \<in> set (matches U r c) \<Longrightarrow> suffix (rest e) (rest c)"
proof (induction U r c arbitrary: e rule: matches.induct)
  case (1 U c)
  then show ?case by simp
next
  case (2 U cs c)
  then show ?case by (cases "rest c") (auto split: if_splits simp: suffix_Cons)
next
  case (3 U a b c)
  from "3.prems" obtain c' where c': "c' \<in> set (matches U a c)" and e: "e \<in> set (matches U b c')"
    by auto
  from "3.IH"(1)[OF c'] "3.IH"(2)[OF c' e] show ?case
    by (rule suffix_order.trans[rotated])
next
  case (4 U a b c)
  from "4.prems" have "e \<in> set (matches U a c) \<or> e \<in> set (matches U b c)" by simp
  with "4.IH" show ?case by blast
next
  case (5 U greedy m n r c)
  have inner: "suffix (rest c') (rest c)"
    if "n \<noteq> Some 0" "c' \<in> set (matches U r c)" for c'
  proof (cases greedy)
    case True
    from "5.IH"(1)[OF True that] show ?thesis .
  next
    case False
    from "5.IH"(3)[OF False that] show ?thesis .
  qed
  have outer: "suffix (rest e) (rest c')"
    if "n \<noteq> Some 0" "c' \<in> set (filter (advanced c) (matches U r c))"
       "e \<in> set (matches U (Rep greedy (m - 1) (dec n) r) c')" for c'
  proof (cases greedy)
    case True
    from "5.IH"(2)[OF True that] show ?thesis .
  next
    case False
    from "5.IH"(4)[OF False that] show ?thesis .
  qed
  from "5.prems"[unfolded matches_Rep[of U greedy m n r c]] consider "e = c"
    | c' where "n \<noteq> Some 0" "c' \<in> set (filter (advanced c) (matches U r c))"
        "e \<in> set (matches U (Rep greedy (m - 1) (dec n) r) c')"
    by (auto split: if_splits)
  then show ?case
  proof cases
    case 1
    then show ?thesis by simp
  next
    case (2 c')
    from inner[OF 2(1)] 2(2) have "suffix (rest c') (rest c)" by simp
    with outer[OF 2] show ?thesis by (rule suffix_order.trans)
  qed
next
  case (6 U n r c)
  from "6.prems" obtain c' where "c' \<in> set (matches U r c)" "e = set_mark n c c'" by auto
  with "6.IH" show ?case by (simp add: set_mark_def)
next
  case (7 U c)
  then show ?case by (simp split: if_splits)
next
  case (8 U c)
  then show ?case by (simp split: if_splits)
next
  case (9 U c)
  then show ?case by (simp split: if_splits)
qed

lemma matches_length: "e \<in> set (matches U r c) \<Longrightarrow> length (rest e) \<le> length (rest c)"
  by (drule matches_suffix) (rule suffix_length_le)


text \<open>
  \<^verbatim>\<open>pattern.search\<close> from a position (the character before it and the text from it
  on): the first position at or after it where the pattern matches, with the text skipped
  on the way, the cursor where the match begins and the cursor where it ends. After an
  empty match the next match may not be empty at the same position (\<open>must_advance\<close>).
\<close>

definition allowed :: "bool \<Rightarrow> cursor \<Rightarrow> cursor \<Rightarrow> bool" where
  "allowed must_advance c e = (\<not> (must_advance \<and> length (rest e) = length (rest c)))"

definition first_match :: "unicode \<Rightarrow> regex \<Rightarrow> bool \<Rightarrow> cursor \<Rightarrow> cursor option" where
  "first_match U r must_advance c =
     (case filter (allowed must_advance c) (matches U r c) of [] \<Rightarrow> None | e # es \<Rightarrow> Some e)"

definition at :: "nat option \<Rightarrow> pystr \<Rightarrow> cursor" where
  "at p s = \<lparr> prev = p, rest = s, marks = [] \<rparr>"

type_synonym found = "pystr \<times> cursor \<times> cursor"

fun search :: "unicode \<Rightarrow> regex \<Rightarrow> bool \<Rightarrow> nat option \<Rightarrow> pystr \<Rightarrow> found option" where
  "search U r must_advance p [] =
     (case first_match U r must_advance (at p []) of
        Some e \<Rightarrow> Some ([], at p [], e)
      | None \<Rightarrow> None)"
| "search U r must_advance p (x # xs) =
     (case first_match U r must_advance (at p (x # xs)) of
        Some e \<Rightarrow> Some ([], at p (x # xs), e)
      | None \<Rightarrow>
         (case search U r False (Some x) xs of
            None \<Rightarrow> None
          | Some (skipped, b, e) \<Rightarrow> Some (x # skipped, b, e)))"

lemma first_match_bounds:
  "first_match U r must_advance c = Some e \<Longrightarrow>
     length (rest e) \<le> length (rest c) \<and> (must_advance \<longrightarrow> length (rest e) < length (rest c))"
proof -
  assume a: "first_match U r must_advance c = Some e"
  then obtain es where "filter (allowed must_advance c) (matches U r c) = e # es"
    by (auto simp: first_match_def split: list.splits)
  then have "e \<in> set (filter (allowed must_advance c) (matches U r c))" by simp
  then have e: "e \<in> set (matches U r c)" "allowed must_advance c e" by simp_all
  with matches_length[OF e(1)] show ?thesis by (auto simp: allowed_def)
qed

lemma search_bounds:
  "search U r must_advance p s = Some (skipped, b, e) \<Longrightarrow>
     length (rest e) \<le> length (rest b) \<and> length (rest b) \<le> length s
     \<and> (must_advance \<longrightarrow> length (rest e) < length s)"
proof (induction s arbitrary: must_advance p skipped)
  case Nil
  then show ?case
    by (auto simp: at_def split: option.splits dest!: first_match_bounds)
next
  case (Cons x xs)
  show ?case
  proof (cases "first_match U r must_advance (at p (x # xs))")
    case (Some e')
    with Cons.prems have "b = at p (x # xs)" "e = e'" by simp_all
    with first_match_bounds[OF Some] show ?thesis by (simp add: at_def)
  next
    case None
    with Cons.prems obtain sk where "search U r False (Some x) xs = Some (sk, b, e)"
      by (auto split: option.splits)
    from Cons.IH[OF this] show ?thesis by auto
  qed
qed

text \<open>
  The scan that \<^verbatim>\<open>re.sub\<close> and \<^verbatim>\<open>re.finditer\<close> share: the successive matches
  from left to right, each with the text skipped before it, and the text left after the
  last one.
\<close>

function scan :: "unicode \<Rightarrow> regex \<Rightarrow> bool \<Rightarrow> nat option \<Rightarrow> pystr \<Rightarrow> found list \<times> pystr" where
  "scan U r must_advance p s =
     (case search U r must_advance p s of
        None \<Rightarrow> ([], s)
      | Some (skipped, b, e) \<Rightarrow>
         (case scan U r (length (rest e) = length (rest b)) (prev e) (rest e) of
            (found, tail) \<Rightarrow> ((skipped, b, e) # found, tail)))"
  by pat_completeness auto
termination
proof (relation "measure (\<lambda>(U, r, must_advance, p, s).
                    2 * length s + (if must_advance then 0 else 1))", goal_cases)
  case 1
  show ?case by simp
next
  case (2 U r must_advance p s x2 skipped y b e)
  then have "search U r must_advance p s = Some (skipped, b, e)" by simp
  from search_bounds[OF this] show ?case by auto
qed

declare scan.simps [simp del]

text \<open>\<^verbatim>\<open>re.sub(pattern, repl, text)\<close> for a replacement without backslashes\<close>

definition re_sub :: "unicode \<Rightarrow> regex \<Rightarrow> pystr \<Rightarrow> pystr \<Rightarrow> pystr" where
  "re_sub U r repl text =
     (case scan U r False None text of
        (found, tail) \<Rightarrow> concat (map (\<lambda>(skipped, b, e). skipped @ repl) found) @ tail)"

text \<open>
  \<^verbatim>\<open>re.finditer(pattern, text)\<close>: the matches, each as the cursors where it begins and
  ends; \<^verbatim>\<open>m.group(k)\<close> (the empty string stands for a group that took no part).
\<close>

definition re_finditer :: "unicode \<Rightarrow> regex \<Rightarrow> pystr \<Rightarrow> (cursor \<times> cursor) list" where
  "re_finditer U r text = map snd (fst (scan U r False None text))"

definition group :: "cursor \<times> cursor \<Rightarrow> nat \<Rightarrow> pystr" where
  "group m k =
     (if k = 0 then take (length (rest (fst m)) - length (rest (snd m))) (rest (fst m))
      else (case map_of (marks (snd m)) k of None \<Rightarrow> [] | Some g \<Rightarrow> g))"

text \<open>Building patterns: a sequence, a literal string, and the usual quantifiers.\<close>

definition seq :: "regex list \<Rightarrow> regex" where
  "seq rs = foldr Seq rs Eps"

definition str :: "pystr \<Rightarrow> regex" where
  "str s = seq (map (\<lambda>c. Chr (Lit c)) s)"

definition str_i :: "pystr \<Rightarrow> regex" where
  "str_i s = seq (map (\<lambda>c. Chr (LitI c)) s)"

definition alts :: "regex list \<Rightarrow> regex" where
  "alts rs = foldr Alt (butlast rs) (last rs)"

definition star :: "regex \<Rightarrow> regex" where
  "star r = Rep True 0 None r"

definition plus :: "regex \<Rightarrow> regex" where
  "plus r = Rep True 1 None r"

definition opt :: "regex \<Rightarrow> regex" where
  "opt r = Rep True 0 (Some 1) r"

definition star_lazy :: "regex \<Rightarrow> regex" where
  "star_lazy r = Rep False 0 None r"

text \<open>
  Evaluating a scan on a given text: one search, then the rest of the scan on what the
  search found.
\<close>

definition scan_step :: "unicode \<Rightarrow> regex \<Rightarrow> pystr \<Rightarrow> found option \<Rightarrow> found list \<times> pystr" where
  "scan_step U r s res =
     (case res of
        None \<Rightarrow> ([], s)
      | Some (skipped, b, e) \<Rightarrow>
         (case scan U r (length (rest e) = length (rest b)) (prev e) (rest e) of
            (found, tail) \<Rightarrow> ((skipped, b, e) # found, tail)))"

lemma scan_unfold: "scan U r must_advance p s = scan_step U r s (search U r must_advance p s)"
  by (simp add: scan_step_def scan.simps[of U r must_advance p s])

lemma scan_step_simps:
  "scan_step U r s None = ([], s)"
  "scan_step U r s (Some (skipped, b, e)) =
     (case scan U r (length (rest e) = length (rest b)) (prev e) (rest e) of
            (found, tail) \<Rightarrow> ((skipped, b, e) # found, tail))"
  by (simp_all add: scan_step_def)

lemmas re_eval = re_sub_def scan_unfold scan_step_simps first_match_def at_def matches_Rep allowed_def advanced_def
  dec_def set_mark_def at_boundary_def at_line_start_def at_line_end_def is_word_def
  seq_def str_def str_i_def alts_def star_def plus_def opt_def star_lazy_def
  ascii_def ascii_lower_def isspace_def cps_def

section \<open>clean_email_text\<close>

text \<open>The patterns of \<open>clean_email_text\<close>, in the order of the source, with their flags.\<close>

definition re_html_tag :: regex where
  "re_html_tag = seq [Chr (Lit 60), plus (Chr (NoneOf [62])), Chr (Lit 62)]"

definition re_unsubscribe :: regex where
  "re_unsubscribe =
     Alt (seq [str_i (cps ''To unsubscribe from this group''), star (Chr AnyChar)])
         (seq [str_i (cps ''You received this message because''), star (Chr AnyChar)])"

definition re_original_message :: regex where
  "re_original_message =
     seq [LineStart, star (Chr Space), Rep True 3 None (Chr (OneOf [45, 95, 61])),
          star_lazy (Chr AnyChar), str_i (cps ''Original Message''), star (Chr AnyChar),
          LineEnd]"

definition re_reply_header :: regex where
  "re_reply_header =
     seq [str_i (cps ''On''), plus (Chr Space), star_lazy (Chr AnyChar),
          str_i (cps ''wrote:''), star_lazy (Chr AnyChar), Chr (LitI 10), Chr (LitI 62),
          star (Chr AnyChar)]"

definition re_skool_footer :: regex where
  "re_skool_footer = seq [str_i (cps ''Start your own s k o o l''), star (Chr AnyChar)]"

definition re_notification_settings :: regex where
  "re_notification_settings =
     seq [str_i (cps ''Change notification settings''), star (Chr AnyChar)]"

definition re_agency_hub :: regex where
  "re_agency_hub =
     seq [str_i (cps ''AI Automation Agency Hub''), star_lazy (Chr AnyChar),
          plus (Chr Digit), star (Chr Space), str_i (cps ''new notification'')]"

definition re_since_header :: regex where
  "re_since_header =
     seq [str_i (cps ''Since ''), Rep True 1 (Some 2) (Chr Digit), Chr (LitI 58),
          Rep True 2 (Some 2) (Chr Digit), Chr (LitI 32),
          Group 1 (Alt (str_i (cps ''am'')) (str_i (cps ''pm''))),
          str_i (cps '' (Jul ''), Rep True 1 (Some 2) (Chr Digit), str_i (cps '', ''),
          Rep True 4 (Some 4) (Chr Digit), Chr (LitI 41)]"

definition re_missed :: regex where
  "re_missed = str_i (cps ''Here'' @ [8217] @ cps ''s what you missed:'')"

definition re_view_group :: regex where
  "re_view_group = str_i (cps ''View Group'')"

definition re_too_many :: regex where
  "re_too_many = str_i (cps ''Are we sending you too many emails?'')"

definition re_bundling :: regex where
  "re_bundling =
     str_i (cps ''We'' @ [8217] @ cps ''re bundling up all your email notifications: Hourly'')"

definition re_change_to :: regex where
  "re_change_to =
     seq [str_i (cps ''Change to:''), star_lazy (Chr AnyChar),
          Group 1 (alts [seq [plus (Chr Digit), star (Chr Space), str_i (cps ''mins'')],
                         seq [plus (Chr Digit), star (Chr Space), str_i (cps ''hours'')],
                         str_i (cps ''Daily''), str_i (cps ''Weekly'')])]"

definition re_url :: regex where
  "re_url =
     seq [star (Chr Space), opt (Chr (LitI 40)), star (Chr Space),
          Group 1 (alts
            [seq [str_i (cps ''http''), opt (Chr (LitI 115)), str_i (cps ''://''),
                  plus (Chr NotSpace)],
             seq [str_i (cps ''www.''), plus (Chr NotSpace)],
             seq [WordBoundary, plus (Chr Word), Chr (LitI 46),
                  Group 2 (alts [str_i (cps ''com''), str_i (cps ''org''), str_i (cps ''net''),
                                 str_i (cps ''io''), str_i (cps ''co''), str_i (cps ''ai'')]),
                  Chr (LitI 47), star (Chr NotSpace), WordBoundary]]),
          star (Chr Space), opt (Chr (LitI 41)), star (Chr Space)]"

definition re_link :: regex where
  "re_link = str_i (cps ''[LINK]'')"

definition re_pixel :: regex where
  "re_pixel =
     seq [str_i (cps ''alt='' @ [34, 34] @ cps '' width='' @ [34] @ cps ''1'' @ [34]
                 @ cps '' height='' @ [34] @ cps ''1'' @ [34] @ cps '' border='' @ [34]
                 @ cps ''0'' @ [34] @ cps '' style='' @ [34]),
          plus (Chr (NoneOf [33])), str_i (cps ''!important;''), plus (Chr (NoneOf [33])),
          Chr (LitI 33)]"

definition re_ca_aa :: regex where
  "re_ca_aa =
     seq [WordBoundary, Alt (str (cps ''CA'')) (str (cps ''AA'')), WordBoundary,
          star (Chr Space)]"

definition re_asterisks :: regex where
  "re_asterisks = plus (Chr (Lit 42))"

definition re_empty_parens :: regex where
  "re_empty_parens =
     seq [star (Chr Space), Chr (Lit 40), opt (Chr (Lit 32)), Chr (Lit 41), star (Chr Space),
          star (Group 1 (seq [star (Chr Space), Chr (Lit 40), opt (Chr (Lit 32)), Chr (Lit 41),
                              star (Chr Space)]))]"

definition re_whitespace :: regex where
  "re_whitespace = plus (Chr Space)"

definition re_blank_lines :: regex where
  "re_blank_lines = seq [Chr (Lit 10), star (Chr Space), Chr (Lit 10)]"

definition clean_email_text :: "unicode \<Rightarrow> pystr \<Rightarrow> pystr" where
  "clean_email_text U text =
     (let text = re_sub U re_html_tag (cps '' '') text;
          text = re_sub U re_unsubscribe [] text;
          text = re_sub U re_original_message [] text;
          text = re_sub U re_reply_header [] text;
          text = re_sub U re_skool_footer [] text;
          text = re_sub U re_notification_settings [] text;
          text = re_sub U re_agency_hub [] text;
          text = re_sub U re_since_header [] text;
          text = re_sub U re_missed [] text;
          text = re_sub U re_view_group [] text;
          text = re_sub U re_too_many [] text;
          text = re_sub U re_bundling [] text;
          text = re_sub U re_change_to [] text;
          text = re_sub U re_url (cps '' '') text;
          text = re_sub U re_link (cps '' '') text;
          text = re_sub U re_pixel [] text;
          text = re_sub U re_ca_aa [] text;
          text = re_sub U re_asterisks [] text;
          text = re_sub U re_empty_parens (cps '' '') text;
          text = strip (re_sub U re_whitespace (cps '' '') text);
          text = re_sub U re_blank_lines [10, 10] text
      in text)"

section \<open>Properties of get_summary\<close>

text \<open>
  C4. \<open>get_summary\<close> always returns a string and never propagates an exception: on a
  text that is empty or only whitespace it returns the fixed sentence
  "No content to summarize." and the summarizer is not invoked (the list of invocations is
  empty); when the summarizer, or reading its output, raises, it returns the fixed
  sentence "Could not generate summary.".
\<close>

theorem get_summary_total:
  "(strip text = [] \<longrightarrow>
      get_summary summarizer text = (Inr (cps ''No content to summarize.''), []))
   \<and> (strip text \<noteq> [] \<longrightarrow> (\<forall>e. summarizer text = Inl e \<longrightarrow>
      fst (get_summary summarizer text) = Inr (cps ''Could not generate summary.'')))
   \<and> (\<exists>s. fst (get_summary summarizer text) = Inr s)"
  by (auto simp: get_summary_def try_except_def bind_exn_def split: sum.splits)

theorem get_summary_total_witness:
  "get_summary (\<lambda>t. Inl (CapabilityError [])) (cps ''  '')
     = (Inr (cps ''No content to summarize.''), [])
   \<and> fst (get_summary (\<lambda>t. Inl (CapabilityError [])) (cps ''Hi''))
     = Inr (cps ''Could not generate summary.'')"
proof -
  have blank: "strip (cps ''  '') = []" and nonblank: "strip (cps ''Hi'') \<noteq> []"
    by (simp_all add: cps_def strip_def isspace_def)
  show ?thesis
    using get_summary_total [of "cps ''  ''" "\<lambda>t. Inl (CapabilityError [])"]
      get_summary_total [of "cps ''Hi''" "\<lambda>t. Inl (CapabilityError [])"] blank nonblank
    by blast
qed

section \<open>Properties of extract_key_points_and_actions\<close>

lemma first_occurrences_set: "set (first_occurrences xs) = set xs"
  by (induction xs rule: first_occurrences.induct) auto

lemma first_occurrences_distinct: "distinct (first_occurrences xs)"
  by (induction xs rule: first_occurrences.induct) (auto simp: first_occurrences_set)

lemma first_occurrences_subseq: "subseq (first_occurrences xs) xs"
proof (induction xs rule: first_occurrences.induct)
  case 1 show ?case by simp
next
  case (2 x xs)
  have "subseq (filter (\<lambda>y. y \<noteq> x) xs) xs" by simp
  with 2 have "subseq (first_occurrences (filter (\<lambda>y. y \<noteq> x) xs)) xs"
    using subseq_order.order_trans by blast
  then show ?case by simp
qed

text \<open>
  The loop invariant: \<^verbatim>\<open>processed_sentences\<close> is the set of the key points found so
  far, and what the loop adds are the first occurrences of the selected sentences not
  found yet.
\<close>

lemma key_points_loop_eq:
  "processed = set kp \<Longrightarrow> distinct kp \<Longrightarrow>
   key_points_loop U ss kp processed
     = kp @ first_occurrences (filter (\<lambda>t. t \<notin> set kp) (selected_sentences U ss))"
proof (induction ss arbitrary: kp processed)
  case Nil
  then show ?case by (simp add: selected_sentences_def)
next
  case (Cons s ss)
  let ?t = "strip (sent_text s)"
  show ?case
  proof (cases "?t = [] \<or> ?t \<in> processed \<or> \<not> is_key U s")
    case True
    then have "key_points_loop U (s # ss) kp processed = key_points_loop U ss kp processed"
      by (auto simp: Let_def)
    moreover have "filter (\<lambda>t. t \<notin> set kp) (selected_sentences U (s # ss))
        = filter (\<lambda>t. t \<notin> set kp) (selected_sentences U ss)"
      using True Cons.prems by (auto simp: selected_sentences_def)
    ultimately show ?thesis using Cons by simp
  next
    case False
    then have step: "key_points_loop U (s # ss) kp processed
        = key_points_loop U ss (kp @ [?t]) (insert ?t processed)"
      by (auto simp: Let_def)
    have d: "distinct (kp @ [?t])" and p: "insert ?t processed = set (kp @ [?t])"
      using False Cons.prems by auto
    have sel: "selected_sentences U (s # ss) = ?t # selected_sentences U ss"
      using False by (simp add: selected_sentences_def)
    have f: "filter (\<lambda>y. y \<noteq> ?t) (filter (\<lambda>t. t \<notin> set kp) (selected_sentences U ss))
        = filter (\<lambda>t. t \<notin> set (kp @ [?t])) (selected_sentences U ss)"
      by (auto intro: filter_cong)
    show ?thesis
      using Cons.IH[OF p d] False Cons.prems step sel f by simp
  qed
qed

text \<open>
  C5. The list returned by \<open>extract_key_points_and_actions\<close> has no two equal
  strings; it is the list of selected sentences (each the sentence's text with the
  surrounding whitespace trimmed, not blank, and key by one of the three heuristics)
  reduced to the first occurrence of each, so it is a subsequence of the trimmed
  sentences of the document, in their order.
\<close>

theorem key_points_first_occurrence:
  "distinct (extract_key_points_and_actions U nlp_spacy text)
   \<and> extract_key_points_and_actions U nlp_spacy text
       = first_occurrences (selected_sentences U (sents (nlp_spacy text)))
   \<and> subseq (extract_key_points_and_actions U nlp_spacy text)
        (map (\<lambda>s. strip (sent_text s)) (sents (nlp_spacy text)))
   \<and> list_all (\<lambda>k. list_ex (\<lambda>s. k = strip (sent_text s) \<and> k \<noteq> [] \<and> is_key U s)
                    (sents (nlp_spacy text)))
        (extract_key_points_and_actions U nlp_spacy text)"
proof -
  let ?ss = "sents (nlp_spacy text)"
  have eq: "extract_key_points_and_actions U nlp_spacy text
      = first_occurrences (selected_sentences U ?ss)"
    unfolding extract_key_points_and_actions_def
    using key_points_loop_eq[of "{}" "[]" U ?ss] by simp
  have sub: "subseq (selected_sentences U ?ss) (map (\<lambda>s. strip (sent_text s)) ?ss)"
    unfolding selected_sentences_def by (simp add: subseq_map)
  have s2: "subseq (first_occurrences (selected_sentences U ?ss))
      (map (\<lambda>s. strip (sent_text s)) ?ss)"
    using first_occurrences_subseq sub subseq_order.order_trans by blast
  have mem: "list_all (\<lambda>k. list_ex (\<lambda>s. k = strip (sent_text s) \<and> k \<noteq> [] \<and> is_key U s) ?ss)
        (first_occurrences (selected_sentences U ?ss))"
    unfolding list_all_iff list_ex_iff first_occurrences_set selected_sentences_def by auto
  show ?thesis using eq first_occurrences_distinct s2 mem by simp
qed

text \<open>
  A document of four sentences: the first and the last have the same trimmed text, the
  second is no key point, the third is a question.
\<close>

definition four_sentences :: nlp where
  "four_sentences text = \<lparr> ents = [], sents =
      [\<lparr> sent_text = cps ''Please reply. '', sent_ents = [] \<rparr>,
       \<lparr> sent_text = cps ''It rained. '', sent_ents = [] \<rparr>,
       \<lparr> sent_text = cps ''Why?'', sent_ents = [] \<rparr>,
       \<lparr> sent_text = cps '' Please reply.'', sent_ents = [] \<rparr>] \<rparr>"

lemma four_sentences_key_points:
  "extract_key_points_and_actions ascii four_sentences
     (cps ''Please reply. It rained. Why? Please reply.'')
    = [cps ''Please reply.'', cps ''Why?'']"
  by (simp add: extract_key_points_and_actions_def four_sentences_def cps_def strip_def
      isspace_def is_key_def ascii_def ascii_lower_def action_indicators_def
      significant_labels_def endswith_def)

theorem key_points_first_occurrence_witness:
  "extract_key_points_and_actions ascii four_sentences
     (cps ''Please reply. It rained. Why? Please reply.'')
    = [cps ''Please reply.'', cps ''Why?'']
   \<and> distinct (extract_key_points_and_actions ascii four_sentences
     (cps ''Please reply. It rained. Why? Please reply.''))"
proof -
  have d: "distinct (extract_key_points_and_actions ascii four_sentences
      (cps ''Please reply. It rained. Why? Please reply.''))"
    using key_points_first_occurrence
      [of ascii four_sentences "cps ''Please reply. It rained. Why? Please reply.''"]
    by (rule conjunct1)
  show ?thesis using four_sentences_key_points d by simp
qed

section \<open>Properties of extract_deadlines\<close>

text \<open>The \<^verbatim>\<open>days\<close> of a difference is the floor of the difference in days.\<close>

lemma microseconds_diff:
  "microseconds_of a - microseconds_of b =
     ((toordinal a - toordinal b) * 86400
        + ((int (second a) + int (minute a) * 60 + int (hour a) * 3600)
           - (int (second b) + int (minute b) * 60 + int (hour b) * 3600))) * 1000000
      + (int (microsecond a) - int (microsecond b))"
  unfolding microseconds_of_def by (simp add: algebra_simps)

lemma datetime_sub_same_offset:
  "utcoffset a = utcoffset b \<Longrightarrow>
     \<exists>delta. datetime_sub a b = Inr delta
       \<and> days delta = (microseconds_of a - microseconds_of b) div 86400000000"
  unfolding datetime_sub_def timedelta_new_def Let_def microseconds_diff by simp

lemma datetime_sub_aware_naive:
  "utcoffset a \<noteq> None \<Longrightarrow> utcoffset b = None \<Longrightarrow> datetime_sub a b = Inl TypeError"
  unfolding datetime_sub_def Let_def by (auto split: option.splits)

lemma utcoffset_now [simp]: "utcoffset (datetime_now now n) = None"
  by (simp add: datetime_now_def)

lemma days_nonneg_iff:
  "(0 \<le> (microseconds_of d - microseconds_of t) div 86400000000) = (\<not> in_the_past d t)"
  unfolding in_the_past_def by (simp add: pos_imp_zdiv_nonneg_iff not_less)

lemma days_le_30_iff:
  "((microseconds_of d - microseconds_of t) div 86400000000 \<le> 30) = days_at_most_30 d t"
proof -
  have "((microseconds_of d - microseconds_of t) div 86400000000 \<le> 30)
     = ((microseconds_of d - microseconds_of t) div 86400000000 < 31)" by auto
  also have "\<dots> = ((microseconds_of d - microseconds_of t) < 31 * 86400000000)"
    by linarith
  finally show ?thesis unfolding days_at_most_30_def .
qed

text \<open>
  What the loop computes: \<^verbatim>\<open>TypeError\<close> when a resolved date is timezone-aware, and
  otherwise the formatted dates of the resolved entities the rule classifies.
\<close>

lemma deadlines_loop_eq:
  "deadlines_loop U parse now text es n acc
    = (if list_all naive_date (resolved_entities parse now es n)
       then Inr (acc @ map (\<lambda>x. strftime_ymd_hm (fst (snd x)))
                         (filter (classified_deadline U text) (resolved_entities parse now es n)))
       else Inl TypeError)"
proof (induction es arbitrary: n acc)
  case Nil
  show ?case by simp
next
  case (Cons e es)
  show ?case
  proof (cases "label e \<in> set deadline_labels")
    case False
    then show ?thesis by (simp add: Cons.IH)
  next
    case True
    show ?thesis
    proof (cases "parse (ent_text e) (datetime_now now n)")
      case None
      with True show ?thesis by (simp add: Cons.IH)
    next
      case (Some d)
      let ?t = "datetime_now now (n + 1)"
      show ?thesis
      proof (cases "utcoffset d")
        case aware: (Some off)
        then have "datetime_sub d ?t = Inl TypeError"
          by (intro datetime_sub_aware_naive) simp_all
        with True Some aware show ?thesis
          by (simp add: Let_def naive_date_def)
      next
        case naive: None
        then have "utcoffset d = utcoffset ?t" by simp
        from datetime_sub_same_offset[OF this] obtain delta where
          delta: "datetime_sub d ?t = Inr delta"
            "days delta = (microseconds_of d - microseconds_of ?t) div 86400000000" by blast
        have fut: "(0 \<le> days delta) = (\<not> in_the_past d ?t)"
          and win: "(days delta \<le> 30) = days_at_most_30 d ?t"
          unfolding delta(2) by (rule days_nonneg_iff, rule days_le_30_iff)
        have cls: "classified_deadline U text (e, d, ?t)
            = ((list_ex (\<lambda>keyword. py_in keyword
                   (lower U (slice text (start_char e - 50)
                      (min (length text) (end_char e + 50))))) deadline_keywords
                \<and> \<not> in_the_past d ?t)
               \<or> (label e = cps ''DATE'' \<and> \<not> in_the_past d ?t \<and> days_at_most_30 d ?t))"
          by (simp add: classified_deadline_def keyword_in_window_def)
        show ?thesis
          using True Some naive delta(1) cls
          by (auto simp add: Let_def fut win Cons.IH naive_date_def)
      qed
    qed
  qed
qed

lemma extract_deadlines_eq:
  "extract_deadlines U nlp_spacy parse now text
    = (if list_all naive_date (resolved_entities parse now (ents (nlp_spacy text)) 0)
       then Inr (remdups (map (\<lambda>x. strftime_ymd_hm (fst (snd x)))
                   (filter (classified_deadline U text)
                      (resolved_entities parse now (ents (nlp_spacy text)) 0))))
       else Inl TypeError)"
  by (simp add: extract_deadlines_def deadlines_loop_eq)

lemma strftime_minute_start: "strftime_ymd_hm (minute_start d) = strftime_ymd_hm d"
  by (simp add: strftime_ymd_hm_def minute_start_def)

lemma resolved_reading:
  "(e, d, t) \<in> set (resolved_entities parse now es n) \<Longrightarrow> \<exists>k. t = datetime_now now k"
  by (induction es arbitrary: n) (auto split: if_splits option.splits)

lemma classified_kept:
  assumes "(ent, d, t) \<in> set (resolved_entities parse now es n)"
    and "classified_deadline U text (ent, d, t)" and "naive_date (ent, d, t)"
  shows "\<not> in_the_past d t \<and> (\<exists>delta. datetime_sub d t = Inr delta \<and> 0 \<le> days delta)"
proof -
  from resolved_reading[OF assms(1)] have "utcoffset t = None" by auto
  with assms(3) have "utcoffset d = utcoffset t" by (simp add: naive_date_def)
  from datetime_sub_same_offset[OF this] obtain delta where
    delta: "datetime_sub d t = Inr delta"
      "days delta = (microseconds_of d - microseconds_of t) div 86400000000" by blast
  from assms(2) have np: "\<not> in_the_past d t" by (auto simp: classified_deadline_def)
  then have "0 \<le> days delta" unfolding delta(2) by (simp add: days_nonneg_iff)
  with delta(1) np show ?thesis by blast
qed

text \<open>
  C2 (as amended). When the call returns, every string of the result is the
  \<^verbatim>\<open>'%Y-%m-%d %H:%M'\<close> rendering of the date of a resolved entity, and that date is not
  before the clock reading taken for that entity after parsing
  (\<^verbatim>\<open>delta.days >= 0\<close>); a date equal to that reading counts as future and is kept
  when the window holds a keyword or the label is DATE. The code takes no reading at the
  start of the call, and what it returns is the date cut to the minute.
\<close>

theorem deadlines_not_before_reading:
  "extract_deadlines U nlp_spacy parse now text = Inr ds \<longrightarrow>
     list_all (\<lambda>s. list_ex (\<lambda>(ent, d, t). s = strftime_ymd_hm d \<and> \<not> in_the_past d t
                        \<and> (\<exists>delta. datetime_sub d t = Inr delta \<and> 0 \<le> days delta))
                    (resolved_entities parse now (ents (nlp_spacy text)) 0)) ds
     \<and> (\<forall>ent d t. (ent, d, t) \<in> set (resolved_entities parse now (ents (nlp_spacy text)) 0)
            \<and> microseconds_of d = microseconds_of t
            \<and> (keyword_in_window U text ent \<or> label ent = cps ''DATE'')
          \<longrightarrow> strftime_ymd_hm d \<in> set ds)"
proof
  let ?R = "resolved_entities parse now (ents (nlp_spacy text)) 0"
  assume r: "extract_deadlines U nlp_spacy parse now text = Inr ds"
  then have naive: "list_all naive_date ?R"
    and ds: "ds = remdups (map (\<lambda>x. strftime_ymd_hm (fst (snd x)))
                   (filter (classified_deadline U text) ?R))"
    by (auto simp: extract_deadlines_eq split: if_splits)
  have a: "list_all (\<lambda>s. list_ex (\<lambda>(ent, d, t). s = strftime_ymd_hm d \<and> \<not> in_the_past d t
                        \<and> (\<exists>delta. datetime_sub d t = Inr delta \<and> 0 \<le> days delta)) ?R) ds"
    unfolding list_all_iff list_ex_iff
  proof
    fix s assume "s \<in> set ds"
    then obtain ent d t where x: "(ent, d, t) \<in> set ?R" "classified_deadline U text (ent, d, t)"
      "s = strftime_ymd_hm d"
      unfolding ds by fastforce
    from naive x(1) have "naive_date (ent, d, t)" by (auto simp: list_all_iff)
    from classified_kept[OF x(1) x(2) this] x(1) x(3)
    show "\<exists>x\<in>set ?R. case x of (ent, d, t) \<Rightarrow> s = strftime_ymd_hm d \<and> \<not> in_the_past d t
         \<and> (\<exists>delta. datetime_sub d t = Inr delta \<and> 0 \<le> days delta)"
      by (intro bexI[of _ "(ent, d, t)"]) auto
  qed
  have b: "strftime_ymd_hm d \<in> set ds"
    if h: "(ent, d, t) \<in> set ?R \<and> microseconds_of d = microseconds_of t
          \<and> (keyword_in_window U text ent \<or> label ent = cps ''DATE'')" for ent d t
  proof -
    from h have "\<not> in_the_past d t" "days_at_most_30 d t"
      by (simp_all add: in_the_past_def days_at_most_30_def)
    with h have "classified_deadline U text (ent, d, t)"
      by (auto simp: classified_deadline_def)
    with h show ?thesis unfolding ds by force
  qed
  from a b show "list_all (\<lambda>s. list_ex (\<lambda>(ent, d, t). s = strftime_ymd_hm d \<and> \<not> in_the_past d t
                        \<and> (\<exists>delta. datetime_sub d t = Inr delta \<and> 0 \<le> days delta)) ?R) ds
     \<and> (\<forall>ent d t. (ent, d, t) \<in> set ?R
            \<and> microseconds_of d = microseconds_of t
            \<and> (keyword_in_window U text ent \<or> label ent = cps ''DATE'')
          \<longrightarrow> strftime_ymd_hm d \<in> set ds)"
    by blast
qed

text \<open>
  C3 (as amended). When no resolved date is timezone-aware, the call returns, each string
  of the result occurs once, and a string is in the result exactly when it is the
  formatted date of some resolved DATE, TIME or EVENT entity that the code's rule
  classifies: a keyword in the lower-cased window of 50 characters around the entity and
  a date not before the reading taken for the entity, or the label DATE, a date not
  before that reading and \<^verbatim>\<open>delta.days <= 30\<close> (less than 31 days ahead).
\<close>

theorem deadlines_characterised:
  "list_all naive_date (resolved_entities parse now (ents (nlp_spacy text)) 0) \<longrightarrow>
     (\<exists>ds. extract_deadlines U nlp_spacy parse now text = Inr ds \<and> distinct ds
        \<and> (\<forall>s. (s \<in> set ds)
              = (\<exists>x \<in> set (resolved_entities parse now (ents (nlp_spacy text)) 0).
                   classified_deadline U text x \<and> s = strftime_ymd_hm (fst (snd x)))))"
  by (auto simp: extract_deadlines_eq)

text \<open>Documents of one entity, a parser that knows one phrase, and a standing clock.\<close>

lemmas date_eval = microseconds_of_def toordinal_def days_before_year_def days_before_month_def
  is_leap_def

lemmas strftime_eval = strftime_ymd_hm_def pad2_def pad4_def digit_def cps_def

lemmas window_eval = slice_def ascii_def ascii_lower_def cps_def

lemma datetime_now_frozen: "utcoffset t = None \<Longrightarrow> datetime_now (\<lambda>k. t) n = t"
  by (simp add: datetime_now_def)

definition one_entity :: "entity \<Rightarrow> nlp" where
  "one_entity ent text = \<lparr> ents = [ent], sents = [\<lparr> sent_text = text, sent_ents = [ent] \<rparr>] \<rparr>"

definition parse_as :: "pystr \<Rightarrow> datetime \<Rightarrow> dateparser" where
  "parse_as s d s' base = (if s' = s then Some d else None)"

text \<open>
  The scenario of the specification: one DATE entity in
  "Please submit the report by December 5, 2025.", resolved to 5 December 2025, 00:00,
  read on 20 November 2025 by a clock that advances one second per reading, or by a clock
  standing at the resolved date itself.
\<close>

definition report_text :: pystr where
  "report_text = cps ''Please submit the report by December 5, 2025.''"

definition report_entity :: entity where
  "report_entity = \<lparr> ent_text = cps ''December 5, 2025'', label = cps ''DATE'',
                      start_char = 28, end_char = 44 \<rparr>"

definition dec5 :: datetime where
  "dec5 = \<lparr> year = 2025, month = 12, day = 5, hour = 0, minute = 0, second = 0,
            microsecond = 0, utcoffset = None \<rparr>"

definition nov20_ticking :: clock where
  "nov20_ticking k = \<lparr> year = 2025, month = 11, day = 20, hour = 10, minute = 0, second = k,
                       microsecond = 0, utcoffset = None \<rparr>"

lemma report_window: "keyword_in_window ascii report_text report_entity"
proof -
  have "lower ascii (slice report_text (start_char report_entity - 50)
           (min (length report_text) (end_char report_entity + 50)))
        = cps ''please submit the report by december 5, 2025.''"
    by (simp add: report_text_def report_entity_def window_eval)
  moreover have "py_in (cps ''by'') (cps ''please submit the report by december 5, 2025.'')"
    by (simp add: cps_def)
  ultimately show ?thesis
    by (simp add: keyword_in_window_def deadline_keywords_def list_ex_iff)
qed

lemma report_resolved:
  "resolved_entities (parse_as (cps ''December 5, 2025'') dec5) nov20_ticking
     (ents (one_entity report_entity report_text)) 0
     = [(report_entity, dec5, datetime_now nov20_ticking (Suc 0))]"
  by (simp add: one_entity_def report_entity_def parse_as_def deadline_labels_def cps_def)

lemma report_not_past: "\<not> in_the_past dec5 (datetime_now nov20_ticking (Suc 0))"
  by (simp add: in_the_past_def datetime_now_def date_eval dec5_def nov20_ticking_def)

lemma report_strftime: "strftime_ymd_hm dec5 = cps ''2025-12-05 00:00''"
  by (simp add: dec5_def strftime_eval)

lemma report_resolved_frozen:
  "resolved_entities (parse_as (cps ''December 5, 2025'') dec5) (\<lambda>k. dec5)
     (ents (one_entity report_entity report_text)) 0
     = [(report_entity, dec5, dec5)]"
  by (simp add: one_entity_def report_entity_def parse_as_def deadline_labels_def cps_def
      datetime_now_frozen dec5_def)

theorem deadlines_not_before_reading_witness:
  "\<exists>ds. extract_deadlines ascii (one_entity report_entity)
           (parse_as (cps ''December 5, 2025'') dec5) (\<lambda>k. dec5) report_text = Inr ds
      \<and> cps ''2025-12-05 00:00'' \<in> set ds"
proof -
  have naive: "list_all naive_date [(report_entity, dec5, dec5)]"
    by (simp add: naive_date_def dec5_def)
  then obtain ds where ds: "extract_deadlines ascii (one_entity report_entity)
           (parse_as (cps ''December 5, 2025'') dec5) (\<lambda>k. dec5) report_text = Inr ds"
    by (simp add: extract_deadlines_eq report_resolved_frozen)
  have h: "(report_entity, dec5, dec5)
        \<in> set (resolved_entities (parse_as (cps ''December 5, 2025'') dec5) (\<lambda>k. dec5)
                  (ents (one_entity report_entity report_text)) 0)
       \<and> microseconds_of dec5 = microseconds_of dec5
       \<and> (keyword_in_window ascii report_text report_entity
            \<or> label report_entity = cps ''DATE'')"
    by (simp add: report_resolved_frozen) (simp add: report_entity_def)
  from deadlines_not_before_reading
    [of ascii "one_entity report_entity" "parse_as (cps ''December 5, 2025'') dec5"
        "\<lambda>k. dec5" report_text ds] ds h
  have "strftime_ymd_hm dec5 \<in> set ds" by blast
  with ds show ?thesis by (auto simp: report_strftime)
qed

theorem deadlines_characterised_witness:
  "\<exists>ds. extract_deadlines ascii (one_entity report_entity)
           (parse_as (cps ''December 5, 2025'') dec5) nov20_ticking report_text = Inr ds
      \<and> distinct ds \<and> cps ''2025-12-05 00:00'' \<in> set ds"
proof -
  let ?R = "resolved_entities (parse_as (cps ''December 5, 2025'') dec5) nov20_ticking
              (ents (one_entity report_entity report_text)) 0"
  have naive: "list_all naive_date ?R"
    unfolding report_resolved by (simp add: naive_date_def dec5_def)
  have ex: "\<exists>x \<in> set ?R. classified_deadline ascii report_text x
          \<and> cps ''2025-12-05 00:00'' = strftime_ymd_hm (fst (snd x))"
    unfolding report_resolved
    by (simp add: classified_deadline_def report_window report_not_past report_strftime)
  from deadlines_characterised
    [of "parse_as (cps ''December 5, 2025'') dec5" nov20_ticking "one_entity report_entity"
        report_text ascii] naive ex
  show ?thesis by blast
qed

text \<open>
  C2 as stated fails. In "Reply due in 30 seconds." read at 10:00:10 the date is 10:00:40;
  it is kept, and the string returned denotes 10:00, before the reading. In
  "Call due at 1:30." read by a clock that shows 01:59:59 and then 01:00:00, the date
  01:30 is kept and is before the first reading of the call.
\<close>

definition seconds_text :: pystr where
  "seconds_text = cps ''Reply due in 30 seconds.''"

definition seconds_entity :: entity where
  "seconds_entity = \<lparr> ent_text = cps ''30 seconds'', label = cps ''TIME'',
                       start_char = 13, end_char = 23 \<rparr>"

definition parse_relative :: "pystr \<Rightarrow> nat \<Rightarrow> dateparser" where
  "parse_relative s k s' base = (if s' = s then Some (base\<lparr> second := second base + k \<rparr>) else None)"

definition ten_past :: datetime where
  "ten_past = \<lparr> year = 2025, month = 11, day = 20, hour = 10, minute = 0, second = 10,
                microsecond = 0, utcoffset = None \<rparr>"

definition ten_oclock :: datetime where
  "ten_oclock = \<lparr> year = 2025, month = 11, day = 20, hour = 10, minute = 0, second = 0,
                  microsecond = 0, utcoffset = None \<rparr>"

lemma seconds_window: "keyword_in_window ascii seconds_text seconds_entity"
proof -
  have "lower ascii (slice seconds_text (start_char seconds_entity - 50)
           (min (length seconds_text) (end_char seconds_entity + 50)))
        = cps ''reply due in 30 seconds.''"
    by (simp add: seconds_text_def seconds_entity_def window_eval)
  moreover have "py_in (cps ''due'') (cps ''reply due in 30 seconds.'')"
    by (simp add: cps_def)
  ultimately show ?thesis
    by (simp add: keyword_in_window_def deadline_keywords_def list_ex_iff)
qed

lemma seconds_resolved:
  "resolved_entities (parse_relative (cps ''30 seconds'') 30) (\<lambda>k. ten_past)
     (ents (one_entity seconds_entity seconds_text)) 0
     = [(seconds_entity, ten_past\<lparr> second := 40 \<rparr>, ten_past)]"
  by (simp add: one_entity_def seconds_entity_def parse_relative_def deadline_labels_def cps_def
      datetime_now_frozen ten_past_def)

lemma seconds_deadlines:
  "extract_deadlines ascii (one_entity seconds_entity) (parse_relative (cps ''30 seconds'') 30)
     (\<lambda>k. ten_past) seconds_text = Inr [cps ''2025-11-20 10:00'']"
proof -
  have "\<not> in_the_past (ten_past\<lparr> second := 40 \<rparr>) ten_past"
    by (simp add: in_the_past_def date_eval ten_past_def)
  moreover have "strftime_ymd_hm (ten_past\<lparr> second := 40 \<rparr>) = cps ''2025-11-20 10:00''"
    by (simp add: ten_past_def strftime_eval)
  moreover have "naive_date (seconds_entity, ten_past\<lparr> second := 40 \<rparr>, ten_past)"
    by (simp add: naive_date_def ten_past_def)
  ultimately show ?thesis
    by (simp add: extract_deadlines_eq seconds_resolved classified_deadline_def seconds_window)
qed

lemma ten_oclock_shown: "strftime_ymd_hm ten_oclock = cps ''2025-11-20 10:00''"
  by (simp add: ten_oclock_def strftime_eval)

lemma ten_oclock_before: "in_the_past ten_oclock (datetime_now (\<lambda>k. ten_past) 0)"
  by (simp add: in_the_past_def date_eval ten_past_def ten_oclock_def datetime_now_def)

definition call_text :: pystr where
  "call_text = cps ''Call due at 1:30.''"

definition call_entity :: entity where
  "call_entity = \<lparr> ent_text = cps ''1:30'', label = cps ''TIME'',
                    start_char = 12, end_char = 16 \<rparr>"

definition half_past_one :: datetime where
  "half_past_one = \<lparr> year = 2025, month = 11, day = 2, hour = 1, minute = 30, second = 0,
                     microsecond = 0, utcoffset = None \<rparr>"

definition falling_back :: clock where
  "falling_back k =
     (if k = 0
      then \<lparr> year = 2025, month = 11, day = 2, hour = 1, minute = 59, second = 59,
             microsecond = 0, utcoffset = None \<rparr>
      else \<lparr> year = 2025, month = 11, day = 2, hour = 1, minute = 0, second = 0,
             microsecond = 0, utcoffset = None \<rparr>)"

lemma call_window: "keyword_in_window ascii call_text call_entity"
proof -
  have "lower ascii (slice call_text (start_char call_entity - 50)
           (min (length call_text) (end_char call_entity + 50)))
        = cps ''call due at 1:30.''"
    by (simp add: call_text_def call_entity_def window_eval)
  moreover have "py_in (cps ''due'') (cps ''call due at 1:30.'')"
    by (simp add: cps_def)
  ultimately show ?thesis
    by (simp add: keyword_in_window_def deadline_keywords_def list_ex_iff)
qed

lemma call_resolved:
  "resolved_entities (parse_as (cps ''1:30'') half_past_one) falling_back
     (ents (one_entity call_entity call_text)) 0
     = [(call_entity, half_past_one, datetime_now falling_back (Suc 0))]"
  by (simp add: one_entity_def call_entity_def parse_as_def deadline_labels_def cps_def)

lemma call_deadlines:
  "extract_deadlines ascii (one_entity call_entity) (parse_as (cps ''1:30'') half_past_one)
     falling_back call_text = Inr [cps ''2025-11-02 01:30'']"
proof -
  have "\<not> in_the_past half_past_one (datetime_now falling_back (Suc 0))"
    by (simp add: in_the_past_def date_eval half_past_one_def falling_back_def datetime_now_def)
  moreover have "strftime_ymd_hm half_past_one = cps ''2025-11-02 01:30''"
    by (simp add: half_past_one_def strftime_eval)
  moreover have "naive_date (call_entity, half_past_one, datetime_now falling_back (Suc 0))"
    by (simp add: naive_date_def half_past_one_def)
  ultimately show ?thesis
    by (simp add: extract_deadlines_eq call_resolved classified_deadline_def call_window)
qed

lemma half_past_one_shown: "strftime_ymd_hm half_past_one = cps ''2025-11-02 01:30''"
  by (simp add: half_past_one_def strftime_eval)

lemma half_past_one_before: "in_the_past half_past_one (datetime_now falling_back 0)"
  by (simp add: in_the_past_def date_eval half_past_one_def falling_back_def datetime_now_def)

theorem deadlines_before_reference_counterexample:
  "extract_deadlines ascii (one_entity seconds_entity) (parse_relative (cps ''30 seconds'') 30)
     (\<lambda>k. ten_past) seconds_text = Inr [cps ''2025-11-20 10:00'']
   \<and> strftime_ymd_hm ten_oclock = cps ''2025-11-20 10:00''
   \<and> in_the_past ten_oclock (datetime_now (\<lambda>k. ten_past) 0)
   \<and> extract_deadlines ascii (one_entity call_entity) (parse_as (cps ''1:30'') half_past_one)
        falling_back call_text = Inr [cps ''2025-11-02 01:30'']
   \<and> strftime_ymd_hm half_past_one = cps ''2025-11-02 01:30''
   \<and> in_the_past half_past_one (datetime_now falling_back 0)"
  using seconds_deadlines ten_oclock_shown ten_oclock_before call_deadlines half_past_one_shown
    half_past_one_before
  by blast

text \<open>
  C3 as stated fails. A DATE thirty days and twelve hours ahead, with no keyword around
  it, is kept though it is not within 30 days. Of two entities that resolve to the same
  date, more than 31 days ahead, the second has no keyword in its window and meets
  neither condition, yet its timestamp is in the result. A timezone-aware date with a
  keyword in its window and not in the past meets the first condition, and the call
  raises.
\<close>

definition meeting_text :: pystr where
  "meeting_text = cps ''Meeting December 20, 2025.''"

definition meeting_entity :: entity where
  "meeting_entity = \<lparr> ent_text = cps ''December 20, 2025'', label = cps ''DATE'',
                       start_char = 8, end_char = 25 \<rparr>"

definition dec20 :: datetime where
  "dec20 = \<lparr> year = 2025, month = 12, day = 20, hour = 0, minute = 0, second = 0,
             microsecond = 0, utcoffset = None \<rparr>"

definition nov19_noon :: datetime where
  "nov19_noon = \<lparr> year = 2025, month = 11, day = 19, hour = 12, minute = 0, second = 0,
                  microsecond = 0, utcoffset = None \<rparr>"

lemma meeting_window: "\<not> keyword_in_window ascii meeting_text meeting_entity"
proof -
  have "lower ascii (slice meeting_text (start_char meeting_entity - 50)
           (min (length meeting_text) (end_char meeting_entity + 50)))
        = cps ''meeting december 20, 2025.''"
    by (simp add: meeting_text_def meeting_entity_def window_eval)
  moreover have "\<not> list_ex (\<lambda>keyword. py_in keyword (cps ''meeting december 20, 2025.''))
      deadline_keywords"
    by (simp add: deadline_keywords_def cps_def)
  ultimately show ?thesis
    by (simp add: keyword_in_window_def)
qed

lemma meeting_resolved:
  "resolved_entities (parse_as (cps ''December 20, 2025'') dec20) (\<lambda>k. nov19_noon)
     (ents (one_entity meeting_entity meeting_text)) 0
     = [(meeting_entity, dec20, nov19_noon)]"
  by (simp add: one_entity_def meeting_entity_def parse_as_def deadline_labels_def cps_def
      datetime_now_frozen nov19_noon_def)

lemma meeting_deadlines:
  "extract_deadlines ascii (one_entity meeting_entity) (parse_as (cps ''December 20, 2025'') dec20)
     (\<lambda>k. nov19_noon) meeting_text = Inr [cps ''2025-12-20 00:00'']"
proof -
  have "\<not> in_the_past dec20 nov19_noon"
    by (simp add: in_the_past_def date_eval dec20_def nov19_noon_def)
  moreover have "days_at_most_30 dec20 nov19_noon"
    by (simp add: days_at_most_30_def date_eval dec20_def nov19_noon_def)
  moreover have "strftime_ymd_hm dec20 = cps ''2025-12-20 00:00''"
    by (simp add: dec20_def strftime_eval)
  moreover have "naive_date (meeting_entity, dec20, nov19_noon)"
    by (simp add: naive_date_def dec20_def)
  moreover have "label meeting_entity = cps ''DATE''"
    by (simp add: meeting_entity_def)
  ultimately show ?thesis
    by (simp add: extract_deadlines_eq meeting_resolved classified_deadline_def)
qed

lemma meeting_not_claimed:
  "\<not> claimed_deadline ascii meeting_text (meeting_entity, dec20, nov19_noon)"
proof -
  have "\<not> within_30_days dec20 nov19_noon"
    by (simp add: within_30_days_def date_eval dec20_def nov19_noon_def)
  with meeting_window show ?thesis by (simp add: claimed_deadline_def)
qed

definition garden_text :: pystr where
  "garden_text = cps ''Submit by March 1, 2026. The weather was calm and the garden looked green all week. See you March 1, 2026.''"

definition first_march :: entity where
  "first_march = \<lparr> ent_text = cps ''March 1, 2026'', label = cps ''DATE'',
                    start_char = 10, end_char = 23 \<rparr>"

definition second_march :: entity where
  "second_march = \<lparr> ent_text = cps ''March 1, 2026'', label = cps ''DATE'',
                     start_char = 92, end_char = 105 \<rparr>"

definition garden_nlp :: nlp where
  "garden_nlp text = \<lparr> ents = [first_march, second_march], sents = [] \<rparr>"

definition mar1 :: datetime where
  "mar1 = \<lparr> year = 2026, month = 3, day = 1, hour = 0, minute = 0, second = 0,
            microsecond = 0, utcoffset = None \<rparr>"

lemma first_march_window: "keyword_in_window ascii garden_text first_march"
proof -
  have "lower ascii (slice garden_text (start_char first_march - 50)
           (min (length garden_text) (end_char first_march + 50)))
        = cps ''submit by march 1, 2026. the weather was calm and the garden looked green''"
    by (simp add: garden_text_def first_march_def window_eval)
  moreover have "py_in (cps ''by'')
      (cps ''submit by march 1, 2026. the weather was calm and the garden looked green'')"
    by (simp add: cps_def)
  ultimately show ?thesis
    by (simp add: keyword_in_window_def deadline_keywords_def list_ex_iff)
qed

lemma second_march_window: "\<not> keyword_in_window ascii garden_text second_march"
proof -
  have "lower ascii (slice garden_text (start_char second_march - 50)
           (min (length garden_text) (end_char second_march + 50)))
        = cps ''alm and the garden looked green all week. see you march 1, 2026.''"
    by (simp add: garden_text_def second_march_def window_eval)
  moreover have "\<not> list_ex (\<lambda>keyword. py_in keyword
        (cps ''alm and the garden looked green all week. see you march 1, 2026.''))
      deadline_keywords"
    by (simp add: deadline_keywords_def cps_def)
  ultimately show ?thesis
    by (simp add: keyword_in_window_def)
qed

lemma garden_resolved:
  "resolved_entities (parse_as (cps ''March 1, 2026'') mar1) (\<lambda>k. ten_past)
     (ents (garden_nlp garden_text)) 0
     = [(first_march, mar1, ten_past), (second_march, mar1, ten_past)]"
  by (simp add: garden_nlp_def first_march_def second_march_def parse_as_def deadline_labels_def
      cps_def datetime_now_frozen ten_past_def)

lemma mar1_far: "\<not> in_the_past mar1 ten_past" "\<not> days_at_most_30 mar1 ten_past"
  "\<not> within_30_days mar1 ten_past"
  by (simp_all add: in_the_past_def days_at_most_30_def within_30_days_def date_eval mar1_def
      ten_past_def)

lemma garden_deadlines:
  "extract_deadlines ascii garden_nlp (parse_as (cps ''March 1, 2026'') mar1)
     (\<lambda>k. ten_past) garden_text = Inr [cps ''2026-03-01 00:00'']"
proof -
  have "strftime_ymd_hm mar1 = cps ''2026-03-01 00:00''"
    by (simp add: mar1_def strftime_eval)
  moreover have "naive_date (first_march, mar1, ten_past)" "naive_date (second_march, mar1, ten_past)"
    by (simp_all add: naive_date_def mar1_def)
  ultimately show ?thesis
    by (simp add: extract_deadlines_eq garden_resolved classified_deadline_def
        first_march_window second_march_window mar1_far)
qed

lemma second_march_not_claimed:
  "\<not> claimed_deadline ascii garden_text (second_march, mar1, ten_past)"
  using second_march_window mar1_far by (simp add: claimed_deadline_def)

definition est_text :: pystr where
  "est_text = cps ''Submit by 5pm EST.''"

definition est_entity :: entity where
  "est_entity = \<lparr> ent_text = cps ''5pm EST'', label = cps ''TIME'',
                   start_char = 10, end_char = 17 \<rparr>"

definition five_pm_est :: datetime where
  "five_pm_est = \<lparr> year = 2025, month = 11, day = 20, hour = 17, minute = 0, second = 0,
                   microsecond = 0, utcoffset = Some (- 18000) \<rparr>"

lemma est_window: "keyword_in_window ascii est_text est_entity"
proof -
  have "lower ascii (slice est_text (start_char est_entity - 50)
           (min (length est_text) (end_char est_entity + 50)))
        = cps ''submit by 5pm est.''"
    by (simp add: est_text_def est_entity_def window_eval)
  moreover have "py_in (cps ''by'') (cps ''submit by 5pm est.'')"
    by (simp add: cps_def)
  ultimately show ?thesis
    by (simp add: keyword_in_window_def deadline_keywords_def list_ex_iff)
qed

lemma est_resolved:
  "resolved_entities (parse_as (cps ''5pm EST'') five_pm_est) (\<lambda>k. ten_past)
     (ents (one_entity est_entity est_text)) 0
     = [(est_entity, five_pm_est, ten_past)]"
  by (simp add: one_entity_def est_entity_def parse_as_def deadline_labels_def cps_def
      datetime_now_frozen ten_past_def)

lemma est_raises:
  "extract_deadlines ascii (one_entity est_entity) (parse_as (cps ''5pm EST'') five_pm_est)
     (\<lambda>k. ten_past) est_text = Inl TypeError"
  unfolding extract_deadlines_eq est_resolved
  by (simp add: naive_date_def five_pm_est_def)

lemma est_claimed: "claimed_deadline ascii est_text (est_entity, five_pm_est, ten_past)"
proof -
  have "\<not> in_the_past five_pm_est ten_past"
    by (simp add: in_the_past_def date_eval five_pm_est_def ten_past_def)
  with est_window show ?thesis by (simp add: claimed_deadline_def)
qed

theorem deadlines_claimed_rule_counterexample:
  "extract_deadlines ascii (one_entity meeting_entity) (parse_as (cps ''December 20, 2025'') dec20)
     (\<lambda>k. nov19_noon) meeting_text = Inr [strftime_ymd_hm dec20]
   \<and> \<not> claimed_deadline ascii meeting_text (meeting_entity, dec20, nov19_noon)
   \<and> extract_deadlines ascii garden_nlp (parse_as (cps ''March 1, 2026'') mar1)
        (\<lambda>k. ten_past) garden_text = Inr [strftime_ymd_hm mar1]
   \<and> \<not> claimed_deadline ascii garden_text (second_march, mar1, ten_past)
   \<and> extract_deadlines ascii (one_entity est_entity) (parse_as (cps ''5pm EST'') five_pm_est)
        (\<lambda>k. ten_past) est_text = Inl TypeError
   \<and> claimed_deadline ascii est_text (est_entity, five_pm_est, ten_past)"
proof -
  have "strftime_ymd_hm dec20 = cps ''2025-12-20 00:00''"
    by (simp add: dec20_def strftime_eval)
  moreover have "strftime_ymd_hm mar1 = cps ''2026-03-01 00:00''"
    by (simp add: mar1_def strftime_eval)
  ultimately show ?thesis
    using meeting_deadlines meeting_not_claimed garden_deadlines second_march_not_claimed
      est_raises est_claimed
    by simp
qed

section \<open>Properties of clean_email_text\<close>

text \<open>
  The scenario of the specification, \<^verbatim>\<open><p>Hello</p> <a href="http://x.com">link</a>\<close>,
  one substitution after the other.
\<close>

definition hello_html :: pystr where
  "hello_html = cps ''<p>Hello</p> <a href='' @ [34] @ cps ''http://x.com'' @ [34] @ cps ''>link</a>''"

lemma hello_step1:
  "re_sub ascii re_html_tag (cps '' '') hello_html = (cps '' Hello   link '')"
  by (simp add: re_eval re_html_tag_def hello_html_def)

lemma hello_step2:
  "re_sub ascii re_unsubscribe [] (cps '' Hello   link '') = (cps '' Hello   link '')"
  by (simp add: re_eval re_unsubscribe_def hello_html_def)

lemma hello_step3:
  "re_sub ascii re_original_message [] (cps '' Hello   link '') = (cps '' Hello   link '')"
  by (simp add: re_eval re_original_message_def hello_html_def)

lemma hello_step4:
  "re_sub ascii re_reply_header [] (cps '' Hello   link '') = (cps '' Hello   link '')"
  by (simp add: re_eval re_reply_header_def hello_html_def)

lemma hello_step5:
  "re_sub ascii re_skool_footer [] (cps '' Hello   link '') = (cps '' Hello   link '')"
  by (simp add: re_eval re_skool_footer_def hello_html_def)

lemma hello_step6:
  "re_sub ascii re_notification_settings [] (cps '' Hello   link '') = (cps '' Hello   link '')"
  by (simp add: re_eval re_notification_settings_def hello_html_def)

lemma hello_step7:
  "re_sub ascii re_agency_hub [] (cps '' Hello   link '') = (cps '' Hello   link '')"
  by (simp add: re_eval re_agency_hub_def hello_html_def)

lemma hello_step8:
  "re_sub ascii re_since_header [] (cps '' Hello   link '') = (cps '' Hello   link '')"
  by (simp add: re_eval re_since_header_def hello_html_def)

lemma hello_step9:
  "re_sub ascii re_missed [] (cps '' Hello   link '') = (cps '' Hello   link '')"
  by (simp add: re_eval re_missed_def hello_html_def)

lemma hello_step10:
  "re_sub ascii re_view_group [] (cps '' Hello   link '') = (cps '' Hello   link '')"
  by (simp add: re_eval re_view_group_def hello_html_def)

lemma hello_step11:
  "re_sub ascii re_too_many [] (cps '' Hello   link '') = (cps '' Hello   link '')"
  by (simp add: re_eval re_too_many_def hello_html_def)

lemma hello_step12:
  "re_sub ascii re_bundling [] (cps '' Hello   link '') = (cps '' Hello   link '')"
  by (simp add: re_eval re_bundling_def hello_html_def)

lemma hello_step13:
  "re_sub ascii re_change_to [] (cps '' Hello   link '') = (cps '' Hello   link '')"
  by (simp add: re_eval re_change_to_def hello_html_def)

lemma hello_step14:
  "re_sub ascii re_url (cps '' '') (cps '' Hello   link '') = (cps '' Hello   link '')"
  by (simp add: re_eval re_url_def hello_html_def)

lemma hello_step15:
  "re_sub ascii re_link (cps '' '') (cps '' Hello   link '') = (cps '' Hello   link '')"
  by (simp add: re_eval re_link_def hello_html_def)

lemma hello_step16:
  "re_sub ascii re_pixel [] (cps '' Hello   link '') = (cps '' Hello   link '')"
  by (simp add: re_eval re_pixel_def hello_html_def)

lemma hello_step17:
  "re_sub ascii re_ca_aa [] (cps '' Hello   link '') = (cps '' Hello   link '')"
  by (simp add: re_eval re_ca_aa_def hello_html_def)

lemma hello_step18:
  "re_sub ascii re_asterisks [] (cps '' Hello   link '') = (cps '' Hello   link '')"
  by (simp add: re_eval re_asterisks_def hello_html_def)

lemma hello_step19:
  "re_sub ascii re_empty_parens (cps '' '') (cps '' Hello   link '') = (cps '' Hello   link '')"
  by (simp add: re_eval re_empty_parens_def hello_html_def)

lemma hello_step20:
  "re_sub ascii re_whitespace (cps '' '') (cps '' Hello   link '') = (cps '' Hello link '')"
  by (simp add: re_eval re_whitespace_def hello_html_def)

lemma hello_strip:
  "strip (cps '' Hello link '') = (cps ''Hello link'')"
  by (simp add: strip_def isspace_def cps_def)

lemma hello_step21:
  "re_sub ascii re_blank_lines [10, 10] (cps ''Hello link'') = (cps ''Hello link'')"
  by (simp add: re_eval re_blank_lines_def hello_html_def)

lemma hello_html_cleaned:
  "clean_email_text ascii hello_html = (cps ''Hello link'')"
  by (simp only: clean_email_text_def Let_def hello_step1 hello_step2 hello_step3 hello_step4 hello_step5 hello_step6 hello_step7 hello_step8 hello_step9 hello_step10 hello_step11 hello_step12 hello_step13 hello_step14 hello_step15 hello_step16 hello_step17 hello_step18 hello_step19 hello_step20 hello_strip hello_step21)

text \<open>
  C6 (as amended). On \<^verbatim>\<open><p>Hello</p> <a href="http://x.com">link</a>\<close> the tags are
  replaced by spaces, the URL going with the tag that holds it, and the text of the link
  stays: after whitespace normalization the result is "Hello link".
\<close>

theorem clean_hello_html: "clean_email_text ascii hello_html = cps ''Hello link''"
  by (rule hello_html_cleaned)

text \<open>C6 as stated fails: the result is not "Hello".\<close>

theorem clean_hello_html_counterexample: "clean_email_text ascii hello_html \<noteq> cps ''Hello''"
  by (simp add: hello_html_cleaned cps_def)

end
